theory Spec2Isabelle
  imports Main "HOL-Library.Word"
begin

section \<open>The activation database of go-spacemesh (activation/atxdb.go)\<close>

text \<open>
  A shallow embedding of \<^verbatim>\<open>ActivationDb\<close>. Every method takes the database value
  and returns the updated one; Go's \<^verbatim>\<open>error\<close> results are \<open>error option\<close>
  (\<open>None\<close> is \<^verbatim>\<open>nil\<close>) or a sum with the error on the left. Locks and log
  calls have no effect on the results and are left out.
\<close>

subsection \<open>Types of the \<^verbatim>\<open>types\<close> and \<^verbatim>\<open>common\<close> packages\<close>

type_synonym LayerID = "64 word"
type_synonym EpochId = "64 word"
type_synonym BlockID = "64 word"
type_synonym Hash = "256 word"
type_synonym AtxId = "256 word"
type_synonym bytes = "8 word list"
type_synonym NIPST = bytes

text \<open>\<^verbatim>\<open>*types.EmptyAtxId\<close>: the all-zero hash.\<close>

definition EmptyAtxId :: AtxId where
  "EmptyAtxId = 0"

record NodeId =
  Key :: string
  VRFPublicKey :: bytes

text \<open>
  \<^verbatim>\<open>types.ActivationTx\<close>. \<open>Atx_Id\<close> is what the method \<^verbatim>\<open>Id()\<close> returns, the
  content hash that the transaction carries; \<open>Nipst\<close> is a pointer, \<open>None\<close> when nil.
\<close>

record ActivationTx =
  Atx_Id :: AtxId
  NodeId :: NodeId
  Sequence :: "64 word"
  PrevATXId :: AtxId
  PubLayerIdx :: LayerID
  StartTick :: "64 word"
  PositioningAtx :: AtxId
  ActiveSetSize :: "32 word"
  View :: "BlockID list"
  Nipst :: "NIPST option"

record Block =
  BlockId :: BlockID
  LayerIndex :: LayerID
  AtxIds :: "AtxId list"

record atxIdAndLayer =
  AtxId :: AtxId
  LayerId :: LayerID

text \<open>
  Modelled from the spec: \<^verbatim>\<open>LayerID.GetEpoch\<close> and \<^verbatim>\<open>ActivationTx.TargetEpoch\<close>
  live in the \<^verbatim>\<open>types\<close> package; the epoch of a layer is the integer division of the
  layer by the number of layers per epoch, the target epoch is the publication epoch
  plus one. Go's division panics on a zero divisor, so the results below that depend on
  epochs assume a positive number of layers per epoch.
\<close>

definition GetEpoch :: "LayerID \<Rightarrow> 16 word \<Rightarrow> EpochId" where
  "GetEpoch l layersPerEpoch = l div ucast layersPerEpoch"

definition TargetEpoch :: "ActivationTx \<Rightarrow> 16 word \<Rightarrow> EpochId" where
  "TargetEpoch atx layersPerEpoch = GetEpoch (PubLayerIdx atx) layersPerEpoch + 1"

subsection \<open>Errors\<close>

text \<open>
  One constructor for each error value the code can return; the names follow the error
  taxonomy of the spec. \<open>ErrNotFound\<close> is \<^verbatim>\<open>database.ErrNotFound\<close>, \<open>IOError\<close>
  any other failure of the key-value store, \<open>CodecError\<close> a failed decoding.
\<close>

datatype error =
    ErrNotFound | IOError | CodecError | EmptyIdRequested
  | PrevAtxNotFound | PrevAtxIdentityMismatch | SequenceNotMonotonic
  | NonZeroSequenceWithoutPrev
  | PosAtxNotFound | PosAtxNotBefore | PosAtxTooOld | MissingPosAtx
  | ActiveSetCalcFailed | ActiveSetMismatch | ChallengeHashFailed | NipstInvalid
  | ContextualPrevMissing | ContextualPrevStale | ContextualDoubleFirst
  | GenesisActiveSetUndefined | ViewEncodingFailed | MeshError
  | WrongEpoch | ActiveSetSizeNotFound
  | PosAtxReadFailed | PosAtxWriteFailed | NodeIndexWriteFailed

text \<open>
  The functions of the \<^verbatim>\<open>types\<close> package whose bodies are not part of the sources:
  \<^verbatim>\<open>EpochId.IsGenesis\<close>, the hash of the encoded view
  (\<^verbatim>\<open>common.BytesToHash\<close> of \<^verbatim>\<open>types.ViewAsBytes\<close>, which may fail to encode) and
  \<^verbatim>\<open>NIPSTChallenge.Hash\<close>. They are parameters of the functions that call them.
\<close>

record Types =
  IsGenesis :: "EpochId \<Rightarrow> bool"
  ViewHash :: "BlockID list \<Rightarrow> error + Hash"
  ChallengeHash :: "ActivationTx \<Rightarrow> error + Hash"

subsection \<open>The key-value stores\<close>

text \<open>
  \<^verbatim>\<open>db.atxs\<close> is one byte-keyed store with four families of keys: the bytes of an
  ATX id (the encoded ATX), the key string of a node (the id of its last ATX),
  \<^verbatim>\<open>epochCounterKey(ech)\<close> (a 32-bit counter) and the literal \<^verbatim>\<open>posAtxKey\<close> (the
  encoded \<^verbatim>\<open>atxIdAndLayer\<close>). The families are kept apart here, each with the type
  of value the code writes under it: \<open>dbkey\<close> names a key, and the store is one map
  for each family. A value that the code decodes with a fallible decoder is either the
  encoding of a value (never empty) or raw bytes that do not decode. \<open>readFail\<close> and
  \<open>writeFail\<close> are the keys on which \<^verbatim>\<open>Get\<close> and \<^verbatim>\<open>Put\<close> currently fail with
  an I/O error.
\<close>

datatype dbkey = AtxKey AtxId | NodeKey string | CounterKey EpochId | PosAtxKey

datatype 'a encoded = Enc 'a | Raw bytes

fun nonempty :: "'a encoded \<Rightarrow> bool" where
  "nonempty (Enc x) = True"
| "nonempty (Raw bs) = (bs \<noteq> [])"

fun decode :: "'a encoded \<Rightarrow> error + 'a" where
  "decode (Enc x) = Inr x"
| "decode (Raw bs) = Inl CodecError"

record atxsDB =
  bodies :: "AtxId \<rightharpoonup> ActivationTx encoded"
  lastAtx :: "string \<rightharpoonup> AtxId"
  epochCounter :: "EpochId \<rightharpoonup> 32 word"
  posAtx :: "atxIdAndLayer encoded option"
  readFail :: "dbkey set"
  writeFail :: "dbkey set"

definition getBody :: "atxsDB \<Rightarrow> AtxId \<Rightarrow> error + ActivationTx encoded" where
  "getBody d i =
     (if AtxKey i \<in> readFail d then Inl IOError
      else case bodies d i of None \<Rightarrow> Inl ErrNotFound | Some b \<Rightarrow> Inr b)"

definition putBody :: "atxsDB \<Rightarrow> AtxId \<Rightarrow> ActivationTx encoded \<Rightarrow> error + atxsDB" where
  "putBody d i b =
     (if AtxKey i \<in> writeFail d then Inl IOError
      else Inr (d\<lparr>bodies := (bodies d)(i \<mapsto> b)\<rparr>))"

definition getLast :: "atxsDB \<Rightarrow> string \<Rightarrow> error + AtxId" where
  "getLast d k =
     (if NodeKey k \<in> readFail d then Inl IOError
      else case lastAtx d k of None \<Rightarrow> Inl ErrNotFound | Some i \<Rightarrow> Inr i)"

definition putLast :: "atxsDB \<Rightarrow> string \<Rightarrow> AtxId \<Rightarrow> error + atxsDB" where
  "putLast d k i =
     (if NodeKey k \<in> writeFail d then Inl IOError
      else Inr (d\<lparr>lastAtx := (lastAtx d)(k \<mapsto> i)\<rparr>))"

definition getCounter :: "atxsDB \<Rightarrow> EpochId \<Rightarrow> error + 32 word" where
  "getCounter d e =
     (if CounterKey e \<in> readFail d then Inl IOError
      else case epochCounter d e of None \<Rightarrow> Inl ErrNotFound | Some c \<Rightarrow> Inr c)"

definition putCounter :: "atxsDB \<Rightarrow> EpochId \<Rightarrow> 32 word \<Rightarrow> error + atxsDB" where
  "putCounter d e c =
     (if CounterKey e \<in> writeFail d then Inl IOError
      else Inr (d\<lparr>epochCounter := (epochCounter d)(e \<mapsto> c)\<rparr>))"

definition getPos :: "atxsDB \<Rightarrow> error + atxIdAndLayer encoded" where
  "getPos d =
     (if PosAtxKey \<in> readFail d then Inl IOError
      else case posAtx d of None \<Rightarrow> Inl ErrNotFound | Some p \<Rightarrow> Inr p)"

definition putPos :: "atxsDB \<Rightarrow> atxIdAndLayer encoded \<Rightarrow> error + atxsDB" where
  "putPos d p =
     (if PosAtxKey \<in> writeFail d then Inl IOError
      else Inr (d\<lparr>posAtx := Some p\<rparr>))"

text \<open>\<^verbatim>\<open>db.nipsts\<close>: the encoded NIPST pointer of each ATX id.\<close>

record nipstDB =
  blobs :: "AtxId \<rightharpoonup> NIPST option"
  nipstWriteFail :: "AtxId set"

definition putNipst :: "nipstDB \<Rightarrow> AtxId \<Rightarrow> NIPST option \<Rightarrow> error + nipstDB" where
  "putNipst n i b =
     (if i \<in> nipstWriteFail n then Inl IOError
      else Inr (n\<lparr>blobs := (blobs n)(i \<mapsto> b)\<rparr>))"

subsection \<open>The cache of decoded ATXs\<close>

text \<open>
  Modelled from the spec: \<^verbatim>\<open>AtxCache\<close> is declared outside the sources; it is a
  bounded LRU of decoded ATXs by id, of capacity 350. The list is ordered from the most
  to the least recently used entry; a hit moves the entry to the front, an insertion
  beyond the capacity evicts the least recently used entry.
\<close>

type_synonym AtxCache = "(AtxId \<times> ActivationTx) list"

definition cacheDrop :: "AtxCache \<Rightarrow> AtxId \<Rightarrow> AtxCache" where
  "cacheDrop c i = filter (\<lambda>e. fst e \<noteq> i) c"

definition cacheGet :: "AtxCache \<Rightarrow> AtxId \<Rightarrow> ActivationTx option \<times> AtxCache" where
  "cacheGet c i =
     (case map_of c i of
        None \<Rightarrow> (None, c)
      | Some a \<Rightarrow> (Some a, (i, a) # cacheDrop c i))"

definition cacheAdd :: "AtxCache \<Rightarrow> AtxId \<Rightarrow> ActivationTx \<Rightarrow> AtxCache" where
  "cacheAdd c i a = take 350 ((i, a) # cacheDrop c i)"

subsection \<open>The database\<close>

text \<open>
  The fields of \<^verbatim>\<open>ActivationDb\<close>. \<open>meshDb\<close> stands for
  \<^verbatim>\<open>meshDb.ForBlockInView\<close> (modelled from the spec: it fails, or visits once each
  block reachable from the view whose layer is not below the start layer, in the order
  of the list), \<open>nipstValidator\<close> for \<^verbatim>\<open>nipstValidator.Validate\<close>, \<open>ids\<close> for the
  identity store. \<open>activesetCache\<close> is the package-level cache of active set sizes by
  view hash.
\<close>

record ActivationDb =
  atxs :: atxsDB
  nipsts :: nipstDB
  atxCache :: AtxCache
  meshDb :: "BlockID set \<Rightarrow> LayerID \<Rightarrow> error + Block list"
  LayersPerEpoch :: "16 word"
  nipstValidator :: "NIPST option \<Rightarrow> Hash \<Rightarrow> error option"
  ids :: "string \<rightharpoonup> NodeId"
  activesetCache :: "Hash \<rightharpoonup> 32 word"

text \<open>
  Modelled from the spec: the identity store (\<^verbatim>\<open>IdStore\<close>) is declared outside
  the sources. \<^verbatim>\<open>GetIdentity\<close> finds the identity stored for a key or fails with
  not-found; \<^verbatim>\<open>StoreNodeIdentity\<close> inserts an identity under its key and keeps the
  first one seen.
\<close>

definition GetIdentity :: "ActivationDb \<Rightarrow> string \<Rightarrow> error + NodeId" where
  "GetIdentity db edId =
     (case ids db edId of None \<Rightarrow> Inl ErrNotFound | Some n \<Rightarrow> Inr n)"

definition StoreNodeIdentity :: "ActivationDb \<Rightarrow> NodeId \<Rightarrow> error option \<times> ActivationDb" where
  "StoreNodeIdentity db n =
     (case ids db (Key n) of
        Some m \<Rightarrow> (None, db)
      | None \<Rightarrow> (None, db\<lparr>ids := (ids db)(Key n \<mapsto> n)\<rparr>))"

subsection \<open>Reading\<close>

definition GetAtx :: "ActivationDb \<Rightarrow> AtxId \<Rightarrow> (error + ActivationTx) \<times> ActivationDb" where
  "GetAtx db i =
     (if i = EmptyAtxId then (Inl EmptyIdRequested, db)
      else case cacheGet (atxCache db) i of
        (Some atx, c) \<Rightarrow> (Inr atx, db\<lparr>atxCache := c\<rparr>)
      | (None, c) \<Rightarrow>
          (case getBody (atxs db) i of
             Inl e \<Rightarrow> (Inl e, db)
           | Inr b \<Rightarrow>
               (case decode b of
                  Inl e \<Rightarrow> (Inl e, db)
                | Inr atx \<Rightarrow> (Inr atx, db\<lparr>atxCache := cacheAdd (atxCache db) i atx\<rparr>))))"

definition GetNodeLastAtxId :: "ActivationDb \<Rightarrow> NodeId \<Rightarrow> error + AtxId" where
  "GetNodeLastAtxId db nodeId = getLast (atxs db) (Key nodeId)"

definition getCurrentAtxIdAndLayer :: "ActivationDb \<Rightarrow> error + atxIdAndLayer" where
  "getCurrentAtxIdAndLayer db =
     (case getPos (atxs db) of
        Inl e \<Rightarrow> Inl e
      | Inr posAtxBytes \<Rightarrow> decode posAtxBytes)"



subsection \<open>Contextual validation\<close>

definition ContextuallyValidateAtx :: "ActivationDb \<Rightarrow> ActivationTx \<Rightarrow> error option" where
  "ContextuallyValidateAtx db atx =
     (if PrevATXId atx \<noteq> EmptyAtxId then
        (case GetNodeLastAtxId db (NodeId atx) of
           Inl err \<Rightarrow> Some ContextualPrevMissing
         | Inr last_id \<Rightarrow>
             if last_id \<noteq> PrevATXId atx then Some ContextualPrevStale else None)
      else
        (case GetNodeLastAtxId db (NodeId atx) of
           Inl err \<Rightarrow> if err \<noteq> ErrNotFound then Some err else None
         | Inr last_id \<Rightarrow> Some ContextualDoubleFirst))"

subsection \<open>Writing\<close>

text \<open>
  \<^verbatim>\<open>storeAtxUnlocked\<close> sets \<^verbatim>\<open>atx.Nipst = nil\<close> on the caller's object once the
  NIPST is written, so the writers return the ATX as they leave it. The encoders of the
  \<^verbatim>\<open>types\<close> package (\<^verbatim>\<open>InterfaceToBytes\<close>, \<^verbatim>\<open>AtxAsBytes\<close>) are taken to
  succeed on the values the code gives them, and a value read back decodes to what
  was encoded.
\<close>

definition storeAtxUnlocked ::
  "ActivationDb \<Rightarrow> ActivationTx \<Rightarrow> error option \<times> ActivationTx \<times> ActivationDb" where
  "storeAtxUnlocked db atx =
     (case putNipst (nipsts db) (Atx_Id atx) (Nipst atx) of
        Inl err \<Rightarrow> (Some err, atx, db)
      | Inr n \<Rightarrow>
          (let db1 = db\<lparr>nipsts := n\<rparr>; atx1 = atx\<lparr>Nipst := None\<rparr> in
           case putBody (atxs db1) (Atx_Id atx1) (Enc atx1) of
             Inl err \<Rightarrow> (Some err, atx1, db1)
           | Inr d \<Rightarrow> (None, atx1, db1\<lparr>atxs := d\<rparr>)))"

definition updatePosAtxIfNeeded ::
  "ActivationDb \<Rightarrow> ActivationTx \<Rightarrow> error option \<times> ActivationDb" where
  "updatePosAtxIfNeeded db atx =
     (let write =
        (case putPos (atxs db) (Enc \<lparr>AtxId = Atx_Id atx, LayerId = PubLayerIdx atx\<rparr>) of
           Inl err \<Rightarrow> (Some PosAtxWriteFailed, db)
         | Inr d \<Rightarrow> (None, db\<lparr>atxs := d\<rparr>))
      in case getCurrentAtxIdAndLayer db of
        Inl err \<Rightarrow> if err \<noteq> ErrNotFound then (Some PosAtxReadFailed, db) else write
      | Inr currentIdAndLayer \<Rightarrow>
          if LayerId currentIdAndLayer \<ge> PubLayerIdx atx then (None, db) else write)"

definition incValidAtxCounter :: "ActivationDb \<Rightarrow> EpochId \<Rightarrow> error option \<times> ActivationDb" where
  "incValidAtxCounter db ech =
     (case getCounter (atxs db) ech of
        Inl err \<Rightarrow>
          (case putCounter (atxs db) ech 1 of
             Inl e \<Rightarrow> (Some e, db)
           | Inr d \<Rightarrow> (None, db\<lparr>atxs := d\<rparr>))
      | Inr val \<Rightarrow>
          (case putCounter (atxs db) ech (val + 1) of
             Inl e \<Rightarrow> (Some e, db)
           | Inr d \<Rightarrow> (None, db\<lparr>atxs := d\<rparr>)))"

definition addAtxToNodeId ::
  "ActivationDb \<Rightarrow> NodeId \<Rightarrow> ActivationTx \<Rightarrow> error option \<times> ActivationDb" where
  "addAtxToNodeId db nodeId atx =
     (case putLast (atxs db) (Key nodeId) (Atx_Id atx) of
        Inl err \<Rightarrow> (Some NodeIndexWriteFailed, db)
      | Inr d \<Rightarrow> (None, db\<lparr>atxs := d\<rparr>))"

definition StoreAtx ::
  "ActivationDb \<Rightarrow> EpochId \<Rightarrow> ActivationTx \<Rightarrow> error option \<times> ActivationTx \<times> ActivationDb" where
  "StoreAtx db ech atx =
     (if (case getBody (atxs db) (Atx_Id atx) of Inl err \<Rightarrow> False | Inr b \<Rightarrow> nonempty b)
      then (None, atx, db)
      else case storeAtxUnlocked db atx of
        (Some err, atx1, db1) \<Rightarrow> (Some err, atx1, db1)
      | (None, atx1, db1) \<Rightarrow>
          (case updatePosAtxIfNeeded db1 atx1 of
             (Some err, db2) \<Rightarrow> (Some err, atx1, db2)
           | (None, db2) \<Rightarrow>
               (case incValidAtxCounter db2 ech of
                  (Some err, db3) \<Rightarrow> (Some err, atx1, db3)
                | (None, db3) \<Rightarrow>
                    (case addAtxToNodeId db3 (NodeId atx1) atx1 of
                       (Some err, db4) \<Rightarrow> (Some err, atx1, db4)
                     | (None, db4) \<Rightarrow> (None, atx1, db4)))))"

text \<open>
  \<^verbatim>\<open>ProcessAtx\<close> returns nothing; the errors of the validation, of the store and of
  the identity store are logged only.
\<close>

definition ProcessAtx :: "ActivationDb \<Rightarrow> ActivationTx \<Rightarrow> ActivationTx \<times> ActivationDb" where
  "ProcessAtx db atx =
     (case GetAtx db (Atx_Id atx) of
        (Inr eatx, db1) \<Rightarrow> (atx\<lparr>Nipst := None\<rparr>, db1)
      | (Inl e, db1) \<Rightarrow>
          (let epoch = GetEpoch (PubLayerIdx atx) (LayersPerEpoch db1);
               err = ContextuallyValidateAtx db1 atx;
               (err1, atx1, db2) = StoreAtx db1 epoch atx;
               (err2, db3) = StoreNodeIdentity db2 (NodeId atx1)
           in (atx1, db3)))"

subsection \<open>Identity activity\<close>

definition IsIdentityActive ::
  "ActivationDb \<Rightarrow> string \<Rightarrow> LayerID \<Rightarrow> (bool \<times> AtxId \<times> error option) \<times> ActivationDb" where
  "IsIdentityActive db edId layer =
     (if GetEpoch layer (LayersPerEpoch db) = 0 then ((True, EmptyAtxId, None), db)
      else
        (let epoch = GetEpoch layer (LayersPerEpoch db) in
         case GetIdentity db edId of
           Inl err \<Rightarrow> ((False, EmptyAtxId, None), db)
         | Inr nodeId \<Rightarrow>
             (case GetNodeLastAtxId db nodeId of
                Inl err \<Rightarrow> ((False, EmptyAtxId, Some err), db)
              | Inr atxId \<Rightarrow>
                  (case GetAtx db atxId of
                     (Inl err, db1) \<Rightarrow> ((False, EmptyAtxId, None), db1)
                   | (Inr atx, db1) \<Rightarrow>
                       (let lastAtxTargetEpoch = TargetEpoch atx (LayersPerEpoch db) in
                        if lastAtxTargetEpoch < epoch then ((False, EmptyAtxId, None), db1)
                        else if lastAtxTargetEpoch > epoch then
                          (if PrevATXId atx = EmptyAtxId then ((False, EmptyAtxId, None), db1)
                           else case GetAtx db1 (PrevATXId atx) of
                             (Inl err, db2) \<Rightarrow> ((False, EmptyAtxId, None), db2)
                           | (Inr atx2, db2) \<Rightarrow>
                               ((TargetEpoch atx2 (LayersPerEpoch db) = epoch, Atx_Id atx2, None),
                                db2))
                        else ((TargetEpoch atx (LayersPerEpoch db) = epoch, Atx_Id atx, None),
                              db1))))))"

subsection \<open>The active set of a view\<close>

text \<open>
  \<^verbatim>\<open>log.Panic\<close> in the traversal aborts the call: a function that can reach it
  returns an \<open>outcome\<close>.
\<close>

datatype 'a outcome = Panic | Return 'a

text \<open>The loop over \<^verbatim>\<open>blk.AtxIds\<close>, on the set of ids seen, the counter and the database.\<close>

fun forAtxIds ::
  "EpochId \<Rightarrow> AtxId list \<Rightarrow> AtxId set \<Rightarrow> 32 word \<Rightarrow> ActivationDb
   \<Rightarrow> (AtxId set \<times> 32 word \<times> ActivationDb) outcome" where
  "forAtxIds pubEpoch [] seen counter db = Return (seen, counter, db)"
| "forAtxIds pubEpoch (i # rest) seen counter db =
     (if i \<in> seen then forAtxIds pubEpoch rest seen counter db
      else case fst (GetAtx db i) of
        Inl err \<Rightarrow> Panic
      | Inr atx \<Rightarrow>
          if TargetEpoch atx (LayersPerEpoch db) \<noteq> pubEpoch
          then forAtxIds pubEpoch rest (insert i seen) counter (snd (GetAtx db i))
          else forAtxIds pubEpoch rest (insert i seen) (counter + 1) (snd (GetAtx db i)))"

definition traversalFunc ::
  "EpochId \<Rightarrow> EpochId \<Rightarrow> Block \<Rightarrow> AtxId set \<Rightarrow> 32 word \<Rightarrow> ActivationDb
   \<Rightarrow> (AtxId set \<times> 32 word \<times> ActivationDb) outcome" where
  "traversalFunc pubEpoch countingEpoch blk seen counter db =
     (if GetEpoch (LayerIndex blk) (LayersPerEpoch db) \<noteq> countingEpoch
      then Return (seen, counter, db)
      else forAtxIds pubEpoch (AtxIds blk) seen counter db)"

text \<open>The visits of \<^verbatim>\<open>ForBlockInView\<close>, block after block.\<close>

fun forBlocks ::
  "EpochId \<Rightarrow> EpochId \<Rightarrow> Block list \<Rightarrow> AtxId set \<Rightarrow> 32 word \<Rightarrow> ActivationDb
   \<Rightarrow> (AtxId set \<times> 32 word \<times> ActivationDb) outcome" where
  "forBlocks pubEpoch countingEpoch [] seen counter db = Return (seen, counter, db)"
| "forBlocks pubEpoch countingEpoch (blk # blks) seen counter db =
     (case traversalFunc pubEpoch countingEpoch blk seen counter db of
        Panic \<Rightarrow> Panic
      | Return (seen1, counter1, db1) \<Rightarrow>
          forBlocks pubEpoch countingEpoch blks seen1 counter1 db1)"

text \<open>
  The active set cache is a map here: its capacity is declared outside the sources, and
  the results below hold for every content of the cache.
\<close>

definition CalcActiveSetFromView ::
  "Types \<Rightarrow> ActivationDb \<Rightarrow> ActivationTx
   \<Rightarrow> ((32 word \<times> error option) \<times> ActivationDb) outcome" where
  "CalcActiveSetFromView T db a =
     (case ViewHash T (View a) of
        Inl err \<Rightarrow> Return ((0, Some err), db)
      | Inr hash \<Rightarrow>
          (case activesetCache db hash of
             Some count \<Rightarrow> Return ((count, None), db)
           | None \<Rightarrow>
               (let pubEpoch = GetEpoch (PubLayerIdx a) (LayersPerEpoch db) in
                if pubEpoch < 1 then Return ((0, Some GenesisActiveSetUndefined), db)
                else
                  (let countingEpoch = pubEpoch - 1;
                       firstLayerOfLastEpoch = countingEpoch * ucast (LayersPerEpoch db)
                   in case meshDb db (set (View a)) firstLayerOfLastEpoch of
                     Inl err \<Rightarrow> Return ((0, Some err), db)
                   | Inr blks \<Rightarrow>
                       (case forBlocks pubEpoch countingEpoch blks {} 0 db of
                          Panic \<Rightarrow> Panic
                        | Return (seen, counter, db1) \<Rightarrow>
                            Return ((counter, None),
                              db1\<lparr>activesetCache := (activesetCache db1)(hash \<mapsto> counter)\<rparr>))))))"

subsection \<open>Syntactic validation\<close>

text \<open>
  The four checks of \<^verbatim>\<open>SyntacticallyValidateAtx\<close>, in the order of the code: the
  previous ATX, the positioning ATX, the active set, the NIPST.
\<close>

definition checkPrevAtx :: "ActivationDb \<Rightarrow> ActivationTx \<Rightarrow> error option \<times> ActivationDb" where
  "checkPrevAtx db atx =
     (if PrevATXId atx \<noteq> EmptyAtxId then
        (case GetAtx db (PrevATXId atx) of
           (Inl err, db1) \<Rightarrow> (Some PrevAtxNotFound, db1)
         | (Inr prevATX, db1) \<Rightarrow>
             if Key (NodeId prevATX) \<noteq> Key (NodeId atx) then (Some PrevAtxIdentityMismatch, db1)
             else if Sequence prevATX + 1 \<noteq> Sequence atx then (Some SequenceNotMonotonic, db1)
             else (None, db1))
      else if Sequence atx \<noteq> 0 then (Some NonZeroSequenceWithoutPrev, db)
      else (None, db))"

definition checkPositioningAtx ::
  "Types \<Rightarrow> ActivationDb \<Rightarrow> ActivationTx \<Rightarrow> error option \<times> ActivationDb" where
  "checkPositioningAtx T db atx =
     (if PositioningAtx atx \<noteq> EmptyAtxId then
        (case GetAtx db (PositioningAtx atx) of
           (Inl err, db1) \<Rightarrow> (Some PosAtxNotFound, db1)
         | (Inr pos, db1) \<Rightarrow>
             if PubLayerIdx atx \<le> PubLayerIdx pos then (Some PosAtxNotBefore, db1)
             else if PubLayerIdx atx - PubLayerIdx pos > ucast (LayersPerEpoch db)
             then (Some PosAtxTooOld, db1)
             else (None, db1))
      else if \<not> IsGenesis T (GetEpoch (PubLayerIdx atx) (LayersPerEpoch db))
      then (Some MissingPosAtx, db)
      else (None, db))"

definition checkActiveSet ::
  "Types \<Rightarrow> ActivationDb \<Rightarrow> ActivationTx \<Rightarrow> (error option \<times> ActivationDb) outcome" where
  "checkActiveSet T db atx =
     (case CalcActiveSetFromView T db atx of
        Panic \<Rightarrow> Panic
      | Return ((activeSet, err), db1) \<Rightarrow>
          if err \<noteq> None \<and> \<not> IsGenesis T (GetEpoch (PubLayerIdx atx) (LayersPerEpoch db))
          then Return (Some ActiveSetCalcFailed, db1)
          else if ActiveSetSize atx \<noteq> activeSet then Return (Some ActiveSetMismatch, db1)
          else Return (None, db1))"

definition checkNipst :: "Types \<Rightarrow> ActivationDb \<Rightarrow> ActivationTx \<Rightarrow> error option" where
  "checkNipst T db atx =
     (case ChallengeHash T atx of
        Inl err \<Rightarrow> Some ChallengeHashFailed
      | Inr hash \<Rightarrow>
          (case nipstValidator db (Nipst atx) hash of
             Some err \<Rightarrow> Some NipstInvalid
           | None \<Rightarrow> None))"

definition SyntacticallyValidateAtx ::
  "Types \<Rightarrow> ActivationDb \<Rightarrow> ActivationTx \<Rightarrow> (error option \<times> ActivationDb) outcome" where
  "SyntacticallyValidateAtx T db atx =
     (case checkPrevAtx db atx of
        (Some err, db1) \<Rightarrow> Return (Some err, db1)
      | (None, db1) \<Rightarrow>
          (case checkPositioningAtx T db1 atx of
             (Some err, db2) \<Rightarrow> Return (Some err, db2)
           | (None, db2) \<Rightarrow>
               (case checkActiveSet T db2 atx of
                  Panic \<Rightarrow> Panic
                | Return (Some err, db3) \<Rightarrow> Return (Some err, db3)
                | Return (None, db3) \<Rightarrow> Return (checkNipst T db3 atx, db3))))"

section \<open>Notions used to state the properties\<close>

text \<open>A database whose stores answer every read and every write.\<close>

definition faultFree :: "ActivationDb \<Rightarrow> bool" where
  "faultFree db \<longleftrightarrow>
     readFail (atxs db) = {} \<and> writeFail (atxs db) = {} \<and> nipstWriteFail (nipsts db) = {}"

text \<open>The positioning record, when there is one, decodes.\<close>

definition posDecodes :: "ActivationDb \<Rightarrow> bool" where
  "posDecodes db \<longleftrightarrow> (\<forall>bs. posAtx (atxs db) \<noteq> Some (Raw bs))"

text \<open>No bytes, or no byte at all, are stored under an ATX id.\<close>

definition absent :: "ActivationDb \<Rightarrow> AtxId \<Rightarrow> bool" where
  "absent db i \<longleftrightarrow> (case bodies (atxs db) i of None \<Rightarrow> True | Some b \<Rightarrow> \<not> nonempty b)"

text \<open>
  What a complete run of the five writes of \<^verbatim>\<open>StoreAtx\<close> leaves in the stores: the
  NIPST, the ATX without its NIPST, the positioning record, the counter of the epoch
  and the last ATX of the node.
\<close>

definition posAfter ::
  "atxIdAndLayer encoded option \<Rightarrow> ActivationTx \<Rightarrow> atxIdAndLayer encoded option" where
  "posAfter cur atx =
     (case cur of
        Some (Enc p) \<Rightarrow>
          if LayerId p \<ge> PubLayerIdx atx then cur
          else Some (Enc \<lparr>AtxId = Atx_Id atx, LayerId = PubLayerIdx atx\<rparr>)
      | _ \<Rightarrow> Some (Enc \<lparr>AtxId = Atx_Id atx, LayerId = PubLayerIdx atx\<rparr>))"

definition counterAfter :: "32 word option \<Rightarrow> 32 word" where
  "counterAfter c = (case c of None \<Rightarrow> 1 | Some v \<Rightarrow> v + 1)"

definition stored :: "ActivationDb \<Rightarrow> EpochId \<Rightarrow> ActivationTx \<Rightarrow> ActivationDb" where
  "stored db ech atx =
     db\<lparr>nipsts := (nipsts db)\<lparr>blobs := (blobs (nipsts db))(Atx_Id atx \<mapsto> Nipst atx)\<rparr>,
        atxs := (atxs db)
          \<lparr>bodies := (bodies (atxs db))(Atx_Id atx \<mapsto> Enc (atx\<lparr>Nipst := None\<rparr>)),
           posAtx := posAfter (posAtx (atxs db)) atx,
           epochCounter :=
             (epochCounter (atxs db))(ech \<mapsto> counterAfter (epochCounter (atxs db) ech)),
           lastAtx := (lastAtx (atxs db))(Key (NodeId atx) \<mapsto> Atx_Id atx)\<rparr>\<rparr>"




text \<open>
  The ids of the stored ATXs whose publication epoch is \<open>e\<close>, and the agreement of the
  counters with them: the store is finite and the counter of each epoch is the number
  of these ids as a 32-bit value, or is missing when there is none.
\<close>

definition storedIn :: "ActivationDb \<Rightarrow> EpochId \<Rightarrow> AtxId set" where
  "storedIn db e =
     {k. \<exists>a. bodies (atxs db) k = Some (Enc a) \<and>
              GetEpoch (PubLayerIdx a) (LayersPerEpoch db) = e}"

definition countersMatch :: "ActivationDb \<Rightarrow> bool" where
  "countersMatch db \<longleftrightarrow>
     finite (dom (bodies (atxs db))) \<and>
     (\<forall>e. epochCounter (atxs db) e =
        (if storedIn db e = {} then None else Some (of_nat (card (storedIn db e)))))"

definition counterInv :: "ActivationDb \<Rightarrow> bool" where
  "counterInv db \<longleftrightarrow> faultFree db \<and> posDecodes db \<and> countersMatch db"

text \<open>
  What \<^verbatim>\<open>GetAtx\<close> reads from the store when the cache does not answer; a cache
  whose entries are what the store holds; the ATX ids referenced by the blocks of the
  counting epoch among the visited blocks; and, of a set of ids, those whose ATX is
  found and targets the publication epoch.
\<close>

definition storeLookup :: "ActivationDb \<Rightarrow> AtxId \<Rightarrow> error + ActivationTx" where
  "storeLookup db i =
     (if i = EmptyAtxId then Inl EmptyIdRequested
      else case getBody (atxs db) i of Inl e \<Rightarrow> Inl e | Inr b \<Rightarrow> decode b)"

definition cacheCoherent :: "ActivationDb \<Rightarrow> bool" where
  "cacheCoherent db \<longleftrightarrow>
     (\<forall>k a. (k, a) \<in> set (atxCache db) \<longrightarrow> k \<noteq> EmptyAtxId \<longrightarrow> storeLookup db k = Inr a)"

definition refIds :: "16 word \<Rightarrow> EpochId \<Rightarrow> Block list \<Rightarrow> AtxId set" where
  "refIds lpe countingEpoch blks =
     (\<Union>b \<in> {b \<in> set blks. GetEpoch (LayerIndex b) lpe = countingEpoch}. set (AtxIds b))"

definition counted :: "ActivationDb \<Rightarrow> EpochId \<Rightarrow> AtxId set \<Rightarrow> AtxId set" where
  "counted db pubEpoch S =
     {i \<in> S. \<exists>a. storeLookup db i = Inr a \<and> TargetEpoch a (LayersPerEpoch db) = pubEpoch}"

subsection \<open>Concrete inputs\<close>

text \<open>
  An empty database with four layers per epoch, and the first ATX of a node \<open>N\<close>,
  published in layer 3.
\<close>

definition exampleTypes :: Types where
  "exampleTypes =
     \<lparr>IsGenesis = (\<lambda>e. e = 0),
      ViewHash = (\<lambda>v. Inr (ucast (sum_list v))),
      ChallengeHash = (\<lambda>a. Inr (Atx_Id a))\<rparr>"

definition emptyAtxs :: atxsDB where
  "emptyAtxs =
     \<lparr>bodies = Map.empty, lastAtx = Map.empty, epochCounter = Map.empty, posAtx = None,
      readFail = {}, writeFail = {}\<rparr>"

definition emptyDb :: ActivationDb where
  "emptyDb =
     \<lparr>atxs = emptyAtxs,
      nipsts = \<lparr>blobs = Map.empty, nipstWriteFail = {}\<rparr>,
      atxCache = [],
      meshDb = (\<lambda>v l. Inr []),
      LayersPerEpoch = 4,
      nipstValidator = (\<lambda>n h. None),
      ids = Map.empty,
      activesetCache = Map.empty\<rparr>"

definition nodeN :: NodeId where
  "nodeN = \<lparr>Key = ''N'', VRFPublicKey = []\<rparr>"

definition atxA :: ActivationTx where
  "atxA =
     \<lparr>Atx_Id = 1, NodeId = nodeN, Sequence = 0, PrevATXId = EmptyAtxId, PubLayerIdx = 3,
      StartTick = 0, PositioningAtx = EmptyAtxId, ActiveSetSize = 0, View = [],
      Nipst = Some []\<rparr>"

text \<open>
  A database that holds the counter 7 for epoch 0 and whose read of that counter fails.
\<close>

definition counterReadFailsDb :: ActivationDb where
  "counterReadFailsDb =
     emptyDb\<lparr>atxs := emptyAtxs\<lparr>epochCounter := [0 \<mapsto> 7], readFail := {CounterKey 0}\<rparr>\<rparr>"

text \<open>
  The second ATX of \<open>N\<close>, published in layer 7 on top of \<open>atxA\<close>, and the first ATX
  of another node, published in layer 7 as well.
\<close>

definition atxB :: ActivationTx where
  "atxB =
     \<lparr>Atx_Id = 2, NodeId = nodeN, Sequence = 1, PrevATXId = 1, PubLayerIdx = 7,
      StartTick = 0, PositioningAtx = 1, ActiveSetSize = 1, View = [10],
      Nipst = Some []\<rparr>"

definition atxC :: ActivationTx where
  "atxC =
     \<lparr>Atx_Id = 3, NodeId = \<lparr>Key = ''M'', VRFPublicKey = []\<rparr>, Sequence = 0,
      PrevATXId = EmptyAtxId, PubLayerIdx = 7, StartTick = 0, PositioningAtx = 1,
      ActiveSetSize = 1, View = [10], Nipst = Some []\<rparr>"

text \<open>
  The database after \<open>atxA\<close> is stored, with a mesh that reaches, from a view that
  holds block 10 and from a start layer not above 1, the block 10 of layer 1 that
  references \<open>atxA\<close>; and the same database after the active set of the view of
  \<open>atxB\<close> has been computed.
\<close>

definition blockTen :: Block where
  "blockTen = \<lparr>BlockId = 10, LayerIndex = 1, AtxIds = [1]\<rparr>"

definition storedADb :: ActivationDb where
  "storedADb =
     (stored emptyDb 0 atxA)
       \<lparr>meshDb := (\<lambda>v l. Inr (if 10 \<in> v \<and> l \<le> 1 then [blockTen] else []))\<rparr>"

definition countedDb :: ActivationDb where
  "countedDb =
     storedADb\<lparr>atxCache := [(1, atxA\<lparr>Nipst := None\<rparr>)], activesetCache := [10 \<mapsto> 1]\<rparr>"

text \<open>
  Two ATXs with the view of \<open>atxB\<close>: one published in layer 3, in epoch 0, and one
  published in layer 11, in epoch 2.
\<close>

definition atxG :: ActivationTx where
  "atxG =
     \<lparr>Atx_Id = 4, NodeId = \<lparr>Key = ''G'', VRFPublicKey = []\<rparr>, Sequence = 0,
      PrevATXId = EmptyAtxId, PubLayerIdx = 3, StartTick = 0, PositioningAtx = EmptyAtxId,
      ActiveSetSize = 0, View = [10], Nipst = Some []\<rparr>"

definition atxD :: ActivationTx where
  "atxD =
     \<lparr>Atx_Id = 5, NodeId = \<lparr>Key = ''D'', VRFPublicKey = []\<rparr>, Sequence = 0,
      PrevATXId = EmptyAtxId, PubLayerIdx = 11, StartTick = 0, PositioningAtx = 1,
      ActiveSetSize = 0, View = [10], Nipst = Some []\<rparr>"

section \<open>Properties\<close>

lemmas example_defs =
  emptyDb_def emptyAtxs_def atxA_def atxB_def atxC_def nodeN_def EmptyAtxId_def

lemmas val_defs =
  SyntacticallyValidateAtx_def checkPrevAtx_def checkPositioningAtx_def checkActiveSet_def
  checkNipst_def CalcActiveSetFromView_def traversalFunc_def TargetEpoch_def
  exampleTypes_def storedADb_def countedDb_def blockTen_def atxG_def atxD_def
  stored_def posAfter_def counterAfter_def

subsection \<open>The writes of \<^verbatim>\<open>StoreAtx\<close> on a database without faults\<close>


lemma updatePosAtxIfNeeded_ok:
  "PosAtxKey \<notin> readFail (atxs db) \<Longrightarrow> PosAtxKey \<notin> writeFail (atxs db) \<Longrightarrow> posDecodes db \<Longrightarrow>
   updatePosAtxIfNeeded db atx =
     (None, db\<lparr>atxs := (atxs db)\<lparr>posAtx := posAfter (posAtx (atxs db)) atx\<rparr>\<rparr>)"
  by (cases "posAtx (atxs db)")
     (auto simp: updatePosAtxIfNeeded_def posDecodes_def
        getCurrentAtxIdAndLayer_def getPos_def putPos_def posAfter_def Let_def
        split: encoded.splits)




lemma posAfter_Nipst [simp]: "posAfter p (atx\<lparr>Nipst := n\<rparr>) = posAfter p atx"
  by (simp add: posAfter_def split: option.splits encoded.splits)



subsection \<open>Contextual validation\<close>

text \<open>
  C5. \<^verbatim>\<open>ContextuallyValidateAtx\<close> succeeds exactly when: with a previous ATX
  referenced, the last ATX id of the node is found and is the one referenced; with none
  referenced, the lookup of the last ATX id of the node reports not-found. A failed
  lookup or another last ATX in the first case, and a last ATX found in the second
  (the double first ATX), are errors.
\<close>

theorem ContextuallyValidateAtx_succeeds_iff:
  "(ContextuallyValidateAtx db atx = None \<longleftrightarrow>
      (if PrevATXId atx \<noteq> EmptyAtxId
       then GetNodeLastAtxId db (NodeId atx) = Inr (PrevATXId atx)
       else GetNodeLastAtxId db (NodeId atx) = Inl ErrNotFound)) \<and>
   (PrevATXId atx \<noteq> EmptyAtxId \<longrightarrow> GetNodeLastAtxId db (NodeId atx) = Inl e \<longrightarrow>
      ContextuallyValidateAtx db atx = Some ContextualPrevMissing) \<and>
   (PrevATXId atx \<noteq> EmptyAtxId \<longrightarrow> GetNodeLastAtxId db (NodeId atx) = Inr l \<longrightarrow>
      l \<noteq> PrevATXId atx \<longrightarrow> ContextuallyValidateAtx db atx = Some ContextualPrevStale) \<and>
   (PrevATXId atx = EmptyAtxId \<longrightarrow> GetNodeLastAtxId db (NodeId atx) = Inr l \<longrightarrow>
      ContextuallyValidateAtx db atx = Some ContextualDoubleFirst)"
  by (auto simp: ContextuallyValidateAtx_def split: sum.splits)

theorem ContextuallyValidateAtx_succeeds_iff_witness:
  "ContextuallyValidateAtx emptyDb atxA = None \<and>
   ContextuallyValidateAtx emptyDb (atxA\<lparr>PrevATXId := 9\<rparr>) = Some ContextualPrevMissing \<and>
   ContextuallyValidateAtx (stored emptyDb 0 atxA) (atxA\<lparr>Atx_Id := 2, PrevATXId := 9\<rparr>)
     = Some ContextualPrevStale \<and>
   ContextuallyValidateAtx (stored emptyDb 0 atxA) (atxA\<lparr>Atx_Id := 2\<rparr>)
     = Some ContextualDoubleFirst"
  using ContextuallyValidateAtx_succeeds_iff [of emptyDb atxA IOError 0]
    ContextuallyValidateAtx_succeeds_iff [of emptyDb "atxA\<lparr>PrevATXId := 9\<rparr>" ErrNotFound 0]
    ContextuallyValidateAtx_succeeds_iff
      [of "stored emptyDb 0 atxA" "atxA\<lparr>Atx_Id := 2, PrevATXId := 9\<rparr>" IOError 1]
    ContextuallyValidateAtx_succeeds_iff
      [of "stored emptyDb 0 atxA" "atxA\<lparr>Atx_Id := 2\<rparr>" IOError 1]
  by (simp add: GetNodeLastAtxId_def getLast_def emptyDb_def emptyAtxs_def atxA_def nodeN_def
        EmptyAtxId_def stored_def)

subsection \<open>Identity activity\<close>

text \<open>
  C8. With a positive number of layers per epoch: for a layer of epoch 0,
  \<^verbatim>\<open>IsIdentityActive\<close> returns (true, EMPTY, ok) for every key; for a layer of a
  later epoch and a key that the identity store does not contain, it returns
  (false, EMPTY, ok), without an error.
\<close>

theorem IsIdentityActive_genesis_and_unknown:
  assumes "0 < LayersPerEpoch db"
  shows "(GetEpoch layer (LayersPerEpoch db) = 0 \<longrightarrow>
            IsIdentityActive db edId layer = ((True, EmptyAtxId, None), db)) \<and>
         (1 \<le> GetEpoch layer (LayersPerEpoch db) \<longrightarrow> ids db edId = None \<longrightarrow>
            IsIdentityActive db edId layer = ((False, EmptyAtxId, None), db))"
  by (auto simp: IsIdentityActive_def GetIdentity_def)

theorem IsIdentityActive_genesis_and_unknown_witness:
  "0 < LayersPerEpoch emptyDb \<and> GetEpoch 3 (LayersPerEpoch emptyDb) = 0 \<and>
   IsIdentityActive emptyDb ''N'' 3 = ((True, EmptyAtxId, None), emptyDb) \<and>
   1 \<le> GetEpoch 7 (LayersPerEpoch emptyDb) \<and> ids emptyDb ''N'' = None \<and>
   IsIdentityActive emptyDb ''N'' 7 = ((False, EmptyAtxId, None), emptyDb)"
proof -
  have l: "0 < LayersPerEpoch emptyDb" by (simp add: emptyDb_def)
  have e3: "GetEpoch 3 (LayersPerEpoch emptyDb) = 0" by (simp add: emptyDb_def GetEpoch_def)
  have e7: "GetEpoch 7 (LayersPerEpoch emptyDb) = 1" by (simp add: emptyDb_def GetEpoch_def)
  have i: "ids emptyDb ''N'' = None" by (simp add: emptyDb_def)
  show ?thesis
    using IsIdentityActive_genesis_and_unknown [OF l, of 3 "''N''"]
      IsIdentityActive_genesis_and_unknown [OF l, of 7 "''N''"] l e3 e7 i
    by simp
qed

subsection \<open>The epoch counter\<close>

text \<open>
  C10. \<^verbatim>\<open>incValidAtxCounter\<close> writes the counter of the epoch as 1 whenever the read
  of the counter key returns an error, whatever the error: not-found or a failed read.
  The caller of \<^verbatim>\<open>StoreAtx\<close> sees no error: when the other reads and the writes
  succeed, \<^verbatim>\<open>StoreAtx\<close> returns ok and the counter of the epoch is 1, whatever was
  stored before.
\<close>

theorem incValidAtxCounter_resets_on_any_read_error:
  assumes "getCounter (atxs db) ech = Inl err"
    and "CounterKey ech \<notin> writeFail (atxs db)"
  shows "incValidAtxCounter db ech =
           (None, db\<lparr>atxs := (atxs db)\<lparr>epochCounter := (epochCounter (atxs db))(ech \<mapsto> 1)\<rparr>\<rparr>) \<and>
         (absent db (Atx_Id atx) \<longrightarrow> posDecodes db \<longrightarrow> PosAtxKey \<notin> readFail (atxs db) \<longrightarrow>
          writeFail (atxs db) = {} \<longrightarrow> nipstWriteFail (nipsts db) = {} \<longrightarrow>
            fst (StoreAtx db ech atx) = None \<and>
            epochCounter (atxs (snd (snd (StoreAtx db ech atx)))) ech = Some 1)"
proof (intro conjI impI)
  show inc: "incValidAtxCounter db ech =
      (None, db\<lparr>atxs := (atxs db)\<lparr>epochCounter := (epochCounter (atxs db))(ech \<mapsto> 1)\<rparr>\<rparr>)"
    using assms by (simp add: incValidAtxCounter_def putCounter_def)
next
  assume a: "absent db (Atx_Id atx)" and p: "posDecodes db"
    and r: "PosAtxKey \<notin> readFail (atxs db)"
    and w: "writeFail (atxs db) = {}" and n: "nipstWriteFail (nipsts db) = {}"
  have g: "\<not> (case getBody (atxs db) (Atx_Id atx) of Inl err \<Rightarrow> False | Inr b \<Rightarrow> nonempty b)"
    using a by (auto simp: absent_def getBody_def split: option.splits)
  let ?a = "atx\<lparr>Nipst := None\<rparr>"
  define db1 where "db1 =
    db\<lparr>nipsts := (nipsts db)\<lparr>blobs := (blobs (nipsts db))(Atx_Id atx \<mapsto> Nipst atx)\<rparr>,
       atxs := (atxs db)\<lparr>bodies := (bodies (atxs db))(Atx_Id atx \<mapsto> Enc ?a)\<rparr>\<rparr>"
  have s1: "storeAtxUnlocked db atx = (None, ?a, db1)"
    using w n by (simp add: storeAtxUnlocked_def putNipst_def putBody_def Let_def db1_def)
  have f1: "readFail (atxs db1) = readFail (atxs db)" "writeFail (atxs db1) = {}"
    "epochCounter (atxs db1) = epochCounter (atxs db)" "posAtx (atxs db1) = posAtx (atxs db)"
    using w by (simp_all add: db1_def)
  define db2 where "db2 = db1\<lparr>atxs := (atxs db1)\<lparr>posAtx := posAfter (posAtx (atxs db1)) ?a\<rparr>\<rparr>"
  have s2: "updatePosAtxIfNeeded db1 ?a = (None, db2)"
    unfolding db2_def
    by (rule updatePosAtxIfNeeded_ok) (use f1 r p in \<open>simp_all add: posDecodes_def\<close>)
  have f2: "readFail (atxs db2) = readFail (atxs db)" "writeFail (atxs db2) = {}"
    "epochCounter (atxs db2) = epochCounter (atxs db)"
    using f1 by (simp_all add: db2_def)
  have gc: "getCounter (atxs db2) ech = Inl err"
    using assms(1) f2 by (auto simp: getCounter_def split: if_splits)
  define db3 where "db3 = db2\<lparr>atxs := (atxs db2)\<lparr>epochCounter := (epochCounter (atxs db2))(ech \<mapsto> 1)\<rparr>\<rparr>"
  have s3: "incValidAtxCounter db2 ech = (None, db3)"
    using gc f2 by (simp add: incValidAtxCounter_def putCounter_def db3_def)
  have f3: "writeFail (atxs db3) = {}" "epochCounter (atxs db3) ech = Some 1"
    using f2 by (simp_all add: db3_def)
  define db4 where "db4 = db3\<lparr>atxs := (atxs db3)\<lparr>lastAtx := (lastAtx (atxs db3))(Key (NodeId atx) \<mapsto> Atx_Id atx)\<rparr>\<rparr>"
  have s4: "addAtxToNodeId db3 (NodeId atx) ?a = (None, db4)"
    using f3 by (simp add: addAtxToNodeId_def putLast_def db4_def)
  have f4: "epochCounter (atxs db4) ech = Some 1"
    using f3 by (simp add: db4_def)
  have "StoreAtx db ech atx = (None, ?a, db4)"
    unfolding StoreAtx_def using g by (simp add: s1 s2 s3 s4)
  then show "fst (StoreAtx db ech atx) = None"
    and "epochCounter (atxs (snd (snd (StoreAtx db ech atx)))) ech = Some 1"
    using f4 by simp_all
qed

theorem incValidAtxCounter_resets_on_any_read_error_witness:
  "getCounter (atxs counterReadFailsDb) 0 = Inl IOError \<and>
   CounterKey 0 \<notin> writeFail (atxs counterReadFailsDb) \<and>
   epochCounter (atxs counterReadFailsDb) 0 = Some 7 \<and>
   fst (StoreAtx counterReadFailsDb 0 atxA) = None \<and>
   epochCounter (atxs (snd (snd (StoreAtx counterReadFailsDb 0 atxA)))) 0 = Some 1"
proof -
  have r: "getCounter (atxs counterReadFailsDb) 0 = Inl IOError"
    by (simp add: counterReadFailsDb_def emptyAtxs_def getCounter_def)
  have w: "CounterKey 0 \<notin> writeFail (atxs counterReadFailsDb)"
    by (simp add: counterReadFailsDb_def emptyAtxs_def)
  have h: "absent counterReadFailsDb (Atx_Id atxA)" "posDecodes counterReadFailsDb"
    "PosAtxKey \<notin> readFail (atxs counterReadFailsDb)"
    "writeFail (atxs counterReadFailsDb) = {}"
    "nipstWriteFail (nipsts counterReadFailsDb) = {}"
    by (simp_all add: counterReadFailsDb_def emptyDb_def emptyAtxs_def absent_def
          posDecodes_def)
  have c: "epochCounter (atxs counterReadFailsDb) 0 = Some 7"
    by (simp add: counterReadFailsDb_def emptyAtxs_def)
  show ?thesis
    using incValidAtxCounter_resets_on_any_read_error [OF r w, of atxA] r w h c by simp
qed

subsection \<open>Idempotence of \<^verbatim>\<open>StoreAtx\<close>\<close>







subsection \<open>The positioning record\<close>

lemma decode_Inr [simp]: "decode x = Inr y \<longleftrightarrow> x = Enc y"
  by (cases x) auto

lemma decode_Inl [simp]: "decode x = Inl e \<longleftrightarrow> (\<exists>bs. x = Raw bs \<and> e = CodecError)"
  by (cases x) auto

lemma faultFree_stored [simp]: "faultFree (stored db ech atx) = faultFree db"
  by (simp add: faultFree_def stored_def)















subsection \<open>\<^verbatim>\<open>ProcessAtx\<close>\<close>

lemmas run_defs = ProcessAtx_def GetAtx_def cacheGet_def cacheAdd_def cacheDrop_def getBody_def
  StoreAtx_def storeAtxUnlocked_def putNipst_def putBody_def updatePosAtxIfNeeded_def
  getCurrentAtxIdAndLayer_def getPos_def putPos_def incValidAtxCounter_def getCounter_def
  putCounter_def addAtxToNodeId_def putLast_def StoreNodeIdentity_def
  ContextuallyValidateAtx_def GetNodeLastAtxId_def getLast_def GetEpoch_def Let_def

lemma GetAtx_miss: "fst (GetAtx db i) = Inl e \<Longrightarrow> snd (GetAtx db i) = db"
  by (auto simp: GetAtx_def cacheGet_def split: option.splits sum.splits if_splits)

lemma GetAtx_state: "\<exists>c. snd (GetAtx db i) = db\<lparr>atxCache := c\<rparr>"
proof (cases "fst (GetAtx db i)")
  case (Inl e)
  then have "snd (GetAtx db i) = db\<lparr>atxCache := atxCache db\<rparr>" by (simp add: GetAtx_miss)
  then show ?thesis by blast
next
  case (Inr a)
  then show ?thesis
    by (auto simp: GetAtx_def cacheGet_def split: option.splits sum.splits if_splits)
qed






lemma storedIn_atxCache [simp]: "storedIn (db\<lparr>atxCache := c\<rparr>) e = storedIn db e"
  by (simp add: storedIn_def)

lemma storedIn_ids [simp]: "storedIn (db\<lparr>ids := m\<rparr>) e = storedIn db e"
  by (simp add: storedIn_def)

lemma countersMatch_atxCache [simp]: "countersMatch (db\<lparr>atxCache := c\<rparr>) = countersMatch db"
  by (simp add: countersMatch_def)

lemma countersMatch_ids [simp]: "countersMatch (db\<lparr>ids := m\<rparr>) = countersMatch db"
  by (simp add: countersMatch_def)






lemma counterInv_upd [simp]:
  "counterInv (db\<lparr>atxCache := c\<rparr>) = counterInv db"
  "counterInv (db\<lparr>ids := m\<rparr>) = counterInv db"
  by (simp_all add: counterInv_def faultFree_def posDecodes_def)






subsection \<open>The epoch counters after \<^verbatim>\<open>ProcessAtx\<close>\<close>





subsection \<open>Syntactic validation: the positioning ATX\<close>

lemma unat_ucast_lpe: "unat (ucast (l :: 16 word) :: 64 word) = unat l"
proof -
  have "uint (ucast l :: 64 word) = uint l"
    by (rule uint_up_ucast) (simp add: is_up)
  then show ?thesis by (simp only: unat_eq_nat_uint)
qed

lemma checkPrevAtx_state: "\<exists>c. snd (checkPrevAtx db atx) = db\<lparr>atxCache := c\<rparr>"
proof (cases "PrevATXId atx \<noteq> EmptyAtxId")
  case True
  obtain c where "snd (GetAtx db (PrevATXId atx)) = db\<lparr>atxCache := c\<rparr>"
    using GetAtx_state by blast
  then show ?thesis using True
    by (cases "GetAtx db (PrevATXId atx)") (auto simp: checkPrevAtx_def split: sum.splits)
next
  case False
  then have "snd (checkPrevAtx db atx) = db\<lparr>atxCache := atxCache db\<rparr>"
    by (simp add: checkPrevAtx_def)
  then show ?thesis by blast
qed

lemma checkPositioningAtx_state: "\<exists>c. snd (checkPositioningAtx T db atx) = db\<lparr>atxCache := c\<rparr>"
proof (cases "PositioningAtx atx \<noteq> EmptyAtxId")
  case True
  obtain c where "snd (GetAtx db (PositioningAtx atx)) = db\<lparr>atxCache := c\<rparr>"
    using GetAtx_state by blast
  then show ?thesis using True
    by (cases "GetAtx db (PositioningAtx atx)") (auto simp: checkPositioningAtx_def split: sum.splits)
next
  case False
  then have "snd (checkPositioningAtx T db atx) = db\<lparr>atxCache := atxCache db\<rparr>"
    by (simp add: checkPositioningAtx_def)
  then show ?thesis by blast
qed

lemma checkPositioningAtx_ok:
  assumes "fst (checkPositioningAtx T db atx) = None"
  shows "(PositioningAtx atx \<noteq> EmptyAtxId \<longrightarrow>
            (\<exists>pos. fst (GetAtx db (PositioningAtx atx)) = Inr pos \<and>
               PubLayerIdx pos < PubLayerIdx atx \<and>
               unat (PubLayerIdx atx) - unat (PubLayerIdx pos) \<le> unat (LayersPerEpoch db))) \<and>
         (PositioningAtx atx = EmptyAtxId \<longrightarrow>
            IsGenesis T (GetEpoch (PubLayerIdx atx) (LayersPerEpoch db)))"
proof (cases "PositioningAtx atx = EmptyAtxId")
  case True
  then show ?thesis using assms by (auto simp: checkPositioningAtx_def split: if_splits)
next
  case False
  obtain r d where g: "GetAtx db (PositioningAtx atx) = (r, d)" by (cases "GetAtx db (PositioningAtx atx)")
  from assms False g obtain pos where r: "r = Inr pos"
    and a: "\<not> PubLayerIdx atx \<le> PubLayerIdx pos"
    and b: "\<not> PubLayerIdx atx - PubLayerIdx pos > ucast (LayersPerEpoch db)"
    by (cases r) (auto simp: checkPositioningAtx_def split: if_splits)
  have lt: "PubLayerIdx pos < PubLayerIdx atx" using a by simp
  then have "unat (PubLayerIdx atx - PubLayerIdx pos) = unat (PubLayerIdx atx) - unat (PubLayerIdx pos)"
    by (simp add: unat_sub)
  moreover have "unat (PubLayerIdx atx - PubLayerIdx pos) \<le> unat (LayersPerEpoch db)"
    using b by (simp add: word_less_nat_alt unat_ucast_lpe not_less)
  ultimately show ?thesis using False g r lt by simp
qed

lemma checkPositioningAtx_distance:
  assumes g: "fst (GetAtx db (PositioningAtx atx)) = Inr pos" and l: "0 < LayersPerEpoch db"
  shows "(unat (PubLayerIdx atx) = unat (PubLayerIdx pos) + unat (LayersPerEpoch db) \<longrightarrow>
            fst (checkPositioningAtx T db atx) = None) \<and>
         (unat (PubLayerIdx atx) = unat (PubLayerIdx pos) + unat (LayersPerEpoch db) + 1 \<longrightarrow>
            fst (checkPositioningAtx T db atx) = Some PosAtxTooOld)"
proof -
  have ne: "PositioningAtx atx \<noteq> EmptyAtxId" using g by (auto simp: GetAtx_def)
  have lp: "0 < unat (LayersPerEpoch db)" using l by (simp add: word_less_nat_alt)
  obtain d where gd: "GetAtx db (PositioningAtx atx) = (Inr pos, d)"
    using g by (cases "GetAtx db (PositioningAtx atx)") simp
  have sub: "unat (PubLayerIdx atx - PubLayerIdx pos) = unat (PubLayerIdx atx) - unat (PubLayerIdx pos)"
    if "unat (PubLayerIdx pos) \<le> unat (PubLayerIdx atx)"
    using that by (simp add: unat_sub word_le_nat_alt)
  have c: "fst (checkPositioningAtx T db atx) =
      (if unat (PubLayerIdx atx) \<le> unat (PubLayerIdx pos) then Some PosAtxNotBefore
       else if unat (PubLayerIdx atx - PubLayerIdx pos) > unat (LayersPerEpoch db)
       then Some PosAtxTooOld else None)"
    using ne gd by (simp add: checkPositioningAtx_def word_le_nat_alt word_less_nat_alt unat_ucast_lpe)
  show ?thesis using c sub lp by auto
qed


lemma SyntacticallyValidateAtx_ok:
  assumes "SyntacticallyValidateAtx T db atx = Return (None, db')"
  shows "fst (checkPrevAtx db atx) = None \<and>
         fst (checkPositioningAtx T (snd (checkPrevAtx db atx)) atx) = None \<and>
         checkActiveSet T (snd (checkPositioningAtx T (snd (checkPrevAtx db atx)) atx)) atx
           = Return (None, db') \<and>
         checkNipst T db' atx = None"
  using assms
  by (cases "checkPrevAtx db atx"; cases "checkPositioningAtx T (snd (checkPrevAtx db atx)) atx";
      cases "checkActiveSet T (snd (checkPositioningAtx T (snd (checkPrevAtx db atx)) atx)) atx")
     (auto simp: SyntacticallyValidateAtx_def split: option.splits)

text \<open>
  C4. With a positive number of layers per epoch: when \<^verbatim>\<open>SyntacticallyValidateAtx\<close>
  succeeds on an ATX with a positioning ATX id, the positioning ATX is found (by the
  \<^verbatim>\<open>GetAtx\<close> that follows the check of the previous ATX), its publication layer is
  strictly below that of the ATX and the distance is at most the number of layers per
  epoch; when it succeeds on an ATX without positioning ATX id, the publication epoch is
  genesis. The positioning check accepts a distance of exactly the number of layers per
  epoch and rejects one more.
\<close>

theorem positioning_atx_rule:
  assumes "0 < LayersPerEpoch db"
  shows "(SyntacticallyValidateAtx T db atx = Return (None, db') \<longrightarrow>
            (PositioningAtx atx \<noteq> EmptyAtxId \<longrightarrow>
               (\<exists>pos. fst (GetAtx (snd (checkPrevAtx db atx)) (PositioningAtx atx)) = Inr pos \<and>
                  PubLayerIdx pos < PubLayerIdx atx \<and>
                  unat (PubLayerIdx atx) - unat (PubLayerIdx pos) \<le> unat (LayersPerEpoch db))) \<and>
            (PositioningAtx atx = EmptyAtxId \<longrightarrow>
               IsGenesis T (GetEpoch (PubLayerIdx atx) (LayersPerEpoch db)))) \<and>
         (\<forall>pos. fst (GetAtx db (PositioningAtx atx)) = Inr pos \<longrightarrow>
            (unat (PubLayerIdx atx) = unat (PubLayerIdx pos) + unat (LayersPerEpoch db) \<longrightarrow>
               fst (checkPositioningAtx T db atx) = None) \<and>
            (unat (PubLayerIdx atx) = unat (PubLayerIdx pos) + unat (LayersPerEpoch db) + 1 \<longrightarrow>
               fst (checkPositioningAtx T db atx) = Some PosAtxTooOld))"
proof (intro conjI impI allI)
  assume v: "SyntacticallyValidateAtx T db atx = Return (None, db')"
  obtain c where c: "snd (checkPrevAtx db atx) = db\<lparr>atxCache := c\<rparr>"
    using checkPrevAtx_state by blast
  have p: "fst (checkPositioningAtx T (snd (checkPrevAtx db atx)) atx) = None"
    using SyntacticallyValidateAtx_ok [OF v] by simp
  note r = checkPositioningAtx_ok [OF p]
  show "\<exists>pos. fst (GetAtx (snd (checkPrevAtx db atx)) (PositioningAtx atx)) = Inr pos \<and>
      PubLayerIdx pos < PubLayerIdx atx \<and>
      unat (PubLayerIdx atx) - unat (PubLayerIdx pos) \<le> unat (LayersPerEpoch db)"
    if "PositioningAtx atx \<noteq> EmptyAtxId"
    using r that c by simp
  show "IsGenesis T (GetEpoch (PubLayerIdx atx) (LayersPerEpoch db))"
    if "PositioningAtx atx = EmptyAtxId"
    using r that c by simp
next
  fix pos
  assume g: "fst (GetAtx db (PositioningAtx atx)) = Inr pos"
  note d = checkPositioningAtx_distance [OF g assms, of T]
  show "fst (checkPositioningAtx T db atx) = None"
    if "unat (PubLayerIdx atx) = unat (PubLayerIdx pos) + unat (LayersPerEpoch db)"
    using d that by blast
  show "fst (checkPositioningAtx T db atx) = Some PosAtxTooOld"
    if "unat (PubLayerIdx atx) = unat (PubLayerIdx pos) + unat (LayersPerEpoch db) + 1"
    using d that by blast
qed

theorem positioning_atx_rule_witness:
  "0 < LayersPerEpoch storedADb \<and>
   SyntacticallyValidateAtx exampleTypes storedADb atxB = Return (None, countedDb) \<and>
   PositioningAtx atxB \<noteq> EmptyAtxId \<and>
   (\<exists>pos. fst (GetAtx (snd (checkPrevAtx storedADb atxB)) (PositioningAtx atxB)) = Inr pos \<and>
      PubLayerIdx pos < PubLayerIdx atxB \<and>
      unat (PubLayerIdx atxB) - unat (PubLayerIdx pos) \<le> unat (LayersPerEpoch storedADb)) \<and>
   fst (GetAtx storedADb (PositioningAtx atxB)) = Inr (atxA\<lparr>Nipst := None\<rparr>) \<and>
   unat (PubLayerIdx atxB) = unat (PubLayerIdx atxA) + unat (LayersPerEpoch storedADb) \<and>
   fst (checkPositioningAtx exampleTypes storedADb atxB) = None \<and>
   fst (checkPositioningAtx exampleTypes storedADb (atxB\<lparr>PubLayerIdx := 8\<rparr>))
     = Some PosAtxTooOld \<and>
   SyntacticallyValidateAtx exampleTypes emptyDb atxA = Return (None, emptyDb) \<and>
   PositioningAtx atxA = EmptyAtxId \<and>
   IsGenesis exampleTypes (GetEpoch (PubLayerIdx atxA) (LayersPerEpoch emptyDb))"
proof -
  have l: "0 < LayersPerEpoch storedADb" "0 < LayersPerEpoch emptyDb"
    by (simp_all add: val_defs example_defs)
  have v: "SyntacticallyValidateAtx exampleTypes storedADb atxB = Return (None, countedDb)"
    by (simp add: val_defs run_defs example_defs)
  have vA: "SyntacticallyValidateAtx exampleTypes emptyDb atxA = Return (None, emptyDb)"
    by (simp add: val_defs run_defs example_defs)
  have g: "fst (GetAtx storedADb (PositioningAtx atxB)) = Inr (atxA\<lparr>Nipst := None\<rparr>)"
    by (simp add: val_defs run_defs example_defs)
  have g8: "fst (GetAtx storedADb (PositioningAtx (atxB\<lparr>PubLayerIdx := 8\<rparr>)))
      = Inr (atxA\<lparr>Nipst := None\<rparr>)"
    by (simp add: val_defs run_defs example_defs)
  have d: "unat (PubLayerIdx atxB) = unat (PubLayerIdx atxA) + unat (LayersPerEpoch storedADb)"
    "unat (PubLayerIdx (atxB\<lparr>PubLayerIdx := 8\<rparr>))
       = unat (PubLayerIdx atxA) + unat (LayersPerEpoch storedADb) + 1"
    "PositioningAtx atxB \<noteq> EmptyAtxId" "PositioningAtx atxA = EmptyAtxId"
    by (simp_all add: val_defs example_defs)
  show ?thesis
    using positioning_atx_rule [OF l(1), of exampleTypes atxB countedDb] v g d l
      positioning_atx_rule [OF l(1), of exampleTypes "atxB\<lparr>PubLayerIdx := 8\<rparr>" countedDb] g8
      positioning_atx_rule [OF l(2), of exampleTypes atxA emptyDb] vA
    by simp
qed

subsection \<open>Syntactic validation: the active set of a genesis ATX\<close>

lemma CalcActiveSetFromView_failure:
  assumes "CalcActiveSetFromView T db a = Return ((n, Some err), d)"
  shows "n = 0 \<and> d = db \<and>
         CalcActiveSetFromView T (db\<lparr>atxCache := c\<rparr>) a = Return ((0, Some err), db\<lparr>atxCache := c\<rparr>)"
proof (cases "ViewHash T (View a)")
  case (Inl e)
  then show ?thesis using assms by (simp add: CalcActiveSetFromView_def)
next
  case (Inr hash)
  note h = Inr
  show ?thesis
  proof (cases "activesetCache db hash")
    case (Some count)
    then show ?thesis using assms h by (simp add: CalcActiveSetFromView_def)
  next
    case None
    note n = None
    show ?thesis
    proof (cases "GetEpoch (PubLayerIdx a) (LayersPerEpoch db) < 1")
      case True
      then show ?thesis using assms h n by (simp add: CalcActiveSetFromView_def)
    next
      case False
      let ?pe = "GetEpoch (PubLayerIdx a) (LayersPerEpoch db)"
      show ?thesis
      proof (cases "meshDb db (set (View a)) ((?pe - 1) * ucast (LayersPerEpoch db))")
        case (Inl e)
        then show ?thesis using assms h n False by (simp add: CalcActiveSetFromView_def Let_def)
      next
        case (Inr blks)
        then have False using assms h n False
          by (auto simp: CalcActiveSetFromView_def Let_def split: outcome.splits)
        then show ?thesis ..
      qed
    qed
  qed
qed

text \<open>
  C9. With a positive number of layers per epoch: for an ATX published in a genesis
  epoch on which \<^verbatim>\<open>CalcActiveSetFromView\<close> fails, the computed size is 0, the
  failure is swallowed and the comparison with the declared size is still made: the
  active set check passes exactly when \<^verbatim>\<open>atx.ActiveSetSize\<close> is 0, and
  \<^verbatim>\<open>SyntacticallyValidateAtx\<close> can only succeed with a declared size of 0.
\<close>

theorem genesis_active_set_defaults_to_zero:
  assumes "0 < LayersPerEpoch db"
    and gen: "IsGenesis T (GetEpoch (PubLayerIdx atx) (LayersPerEpoch db))"
    and calc: "CalcActiveSetFromView T db atx = Return ((n, Some err), db1)"
  shows "n = 0 \<and>
         checkActiveSet T db atx =
           Return (if ActiveSetSize atx = 0 then None else Some ActiveSetMismatch, db1) \<and>
         (\<forall>db'. SyntacticallyValidateAtx T db atx = Return (None, db') \<longrightarrow>
            ActiveSetSize atx = 0)"
proof (intro conjI allI impI)
  show n0: "n = 0" using CalcActiveSetFromView_failure [OF calc] by simp
  show "checkActiveSet T db atx =
      Return (if ActiveSetSize atx = 0 then None else Some ActiveSetMismatch, db1)"
    using calc gen n0 by (simp add: checkActiveSet_def)
next
  fix db'
  assume v: "SyntacticallyValidateAtx T db atx = Return (None, db')"
  obtain c1 where c1: "snd (checkPrevAtx db atx) = db\<lparr>atxCache := c1\<rparr>"
    using checkPrevAtx_state by blast
  obtain c2 where c2: "snd (checkPositioningAtx T (db\<lparr>atxCache := c1\<rparr>) atx) = db\<lparr>atxCache := c2\<rparr>"
    using checkPositioningAtx_state [of T "db\<lparr>atxCache := c1\<rparr>" atx] by auto
  have a: "checkActiveSet T (db\<lparr>atxCache := c2\<rparr>) atx = Return (None, db')"
    using SyntacticallyValidateAtx_ok [OF v] c1 c2 by simp
  have "CalcActiveSetFromView T (db\<lparr>atxCache := c2\<rparr>) atx = Return ((0, Some err), db\<lparr>atxCache := c2\<rparr>)"
    using CalcActiveSetFromView_failure [OF calc] by simp
  then show "ActiveSetSize atx = 0"
    using a gen by (simp add: checkActiveSet_def split: if_splits)
qed

theorem genesis_active_set_defaults_to_zero_witness:
  "0 < LayersPerEpoch emptyDb \<and>
   IsGenesis exampleTypes (GetEpoch (PubLayerIdx atxA) (LayersPerEpoch emptyDb)) \<and>
   CalcActiveSetFromView exampleTypes emptyDb atxA
     = Return ((0, Some GenesisActiveSetUndefined), emptyDb) \<and>
   ActiveSetSize atxA = 0 \<and>
   checkActiveSet exampleTypes emptyDb atxA = Return (None, emptyDb) \<and>
   SyntacticallyValidateAtx exampleTypes emptyDb atxA = Return (None, emptyDb) \<and>
   checkActiveSet exampleTypes emptyDb (atxA\<lparr>ActiveSetSize := 5\<rparr>)
     = Return (Some ActiveSetMismatch, emptyDb)"
proof -
  have l: "0 < LayersPerEpoch emptyDb" by (simp add: example_defs)
  have g: "IsGenesis exampleTypes (GetEpoch (PubLayerIdx atxA) (LayersPerEpoch emptyDb))"
    "IsGenesis exampleTypes
       (GetEpoch (PubLayerIdx (atxA\<lparr>ActiveSetSize := 5\<rparr>)) (LayersPerEpoch emptyDb))"
    by (simp_all add: val_defs example_defs GetEpoch_def)
  have c: "CalcActiveSetFromView exampleTypes emptyDb atxA
      = Return ((0, Some GenesisActiveSetUndefined), emptyDb)"
    "CalcActiveSetFromView exampleTypes emptyDb (atxA\<lparr>ActiveSetSize := 5\<rparr>)
      = Return ((0, Some GenesisActiveSetUndefined), emptyDb)"
    by (simp_all add: val_defs example_defs GetEpoch_def)
  have vA: "SyntacticallyValidateAtx exampleTypes emptyDb atxA = Return (None, emptyDb)"
    by (simp add: val_defs run_defs example_defs)
  have z: "ActiveSetSize atxA = 0" "ActiveSetSize (atxA\<lparr>ActiveSetSize := 5\<rparr>) \<noteq> 0"
    by (simp_all add: example_defs)
  show ?thesis
    using genesis_active_set_defaults_to_zero [OF l g(1) c(1)]
      genesis_active_set_defaults_to_zero [OF l g(2) c(2)] l g c vA z
    by simp
qed

subsection \<open>The active set cache\<close>

text \<open>
  When the cache does not hold the hash of the view, the code counts as its doc comment
  says. With a cache of ATXs coherent with the store, a publication epoch of at least 1,
  a traversal that succeeds and every referenced ATX found, the result is the number,
  modulo \<open>2 ^ 32\<close>, of distinct ATX ids referenced by the visited blocks of the epoch
  before the publication epoch whose ATX targets the publication epoch; with the
  publication epoch 0 the call fails.
\<close>

lemma storeLookup_atxCache [simp]: "storeLookup (db\<lparr>atxCache := c\<rparr>) i = storeLookup db i"
  by (simp add: storeLookup_def)

lemma counted_atxCache [simp]: "counted (db\<lparr>atxCache := c\<rparr>) p S = counted db p S"
  by (simp add: counted_def)

lemma GetAtx_coherent:
  assumes "cacheCoherent db"
  shows "fst (GetAtx db i) = storeLookup db i \<and>
         (\<exists>c. snd (GetAtx db i) = db\<lparr>atxCache := c\<rparr> \<and> cacheCoherent (db\<lparr>atxCache := c\<rparr>))"
proof (cases "i = EmptyAtxId")
  case True
  have "GetAtx db i = (Inl EmptyIdRequested, db\<lparr>atxCache := atxCache db\<rparr>)"
    using True by (simp add: GetAtx_def)
  moreover have "cacheCoherent (db\<lparr>atxCache := atxCache db\<rparr>)" using assms by simp
  moreover have "storeLookup db i = Inl EmptyIdRequested" using True by (simp add: storeLookup_def)
  ultimately show ?thesis by (metis fst_conv snd_conv)
next
  case False
  note ne = False
  show ?thesis
  proof (cases "map_of (atxCache db) i")
    case (Some a)
    then have m: "(i, a) \<in> set (atxCache db)" by (rule map_of_SomeD)
    then have l: "storeLookup db i = Inr a" using assms ne by (auto simp: cacheCoherent_def)
    have g: "GetAtx db i = (Inr a, db\<lparr>atxCache := (i, a) # cacheDrop (atxCache db) i\<rparr>)"
      using ne Some by (simp add: GetAtx_def cacheGet_def)
    have "cacheCoherent (db\<lparr>atxCache := (i, a) # cacheDrop (atxCache db) i\<rparr>)"
      using assms l by (auto simp: cacheCoherent_def cacheDrop_def)
    then show ?thesis using g l by auto
  next
    case None
    show ?thesis
    proof (cases "storeLookup db i")
      case (Inl e)
      then have "GetAtx db i = (Inl e, db)"
        using ne None by (auto simp: GetAtx_def cacheGet_def storeLookup_def split: sum.splits)
      moreover have "db = db\<lparr>atxCache := atxCache db\<rparr>" by simp
      ultimately show ?thesis using Inl assms by (metis fst_conv snd_conv)
    next
      case (Inr a)
      then have g: "GetAtx db i = (Inr a, db\<lparr>atxCache := cacheAdd (atxCache db) i a\<rparr>)"
        using ne None by (auto simp: GetAtx_def cacheGet_def storeLookup_def split: sum.splits)
      have "set (cacheAdd (atxCache db) i a) \<subseteq> insert (i, a) (set (atxCache db))"
        by (auto simp: cacheAdd_def cacheDrop_def dest!: in_set_takeD)
      then have "cacheCoherent (db\<lparr>atxCache := cacheAdd (atxCache db) i a\<rparr>)"
        using assms Inr by (auto simp: cacheCoherent_def)
      then show ?thesis using g Inr by auto
    qed
  qed
qed

lemma counted_insert:
  "counted db p (insert i S) =
     (if \<exists>a. storeLookup db i = Inr a \<and> TargetEpoch a (LayersPerEpoch db) = p
      then insert i (counted db p S) else counted db p S)"
  by (auto simp: counted_def)

lemma finite_counted: "finite S \<Longrightarrow> finite (counted db p S)"
  by (simp add: counted_def)

lemma forAtxIds_counts:
  assumes "cacheCoherent db"
    and "\<forall>i \<in> set js - seen. \<exists>a. storeLookup db i = Inr a"
  shows "\<exists>c. cacheCoherent (db\<lparr>atxCache := c\<rparr>) \<and>
           forAtxIds p js seen counter db =
             Return (seen \<union> set js,
                     counter + of_nat (card (counted db p (set js - seen))),
                     db\<lparr>atxCache := c\<rparr>)"
  using assms
proof (induction js arbitrary: seen counter db)
  case Nil
  have "db = db\<lparr>atxCache := atxCache db\<rparr>" by simp
  then show ?case using Nil.prems(1) by (auto simp: counted_def intro!: exI [of _ "atxCache db"])
next
  case (Cons i rest)
  show ?case
  proof (cases "i \<in> seen")
    case True
    then have e: "set (i # rest) - seen = set rest - seen" "seen \<union> set (i # rest) = seen \<union> set rest"
      by auto
    have "\<forall>j \<in> set rest - seen. \<exists>a. storeLookup db j = Inr a" using Cons.prems(2) by auto
    from Cons.IH [OF Cons.prems(1) this, of counter] True show ?thesis
      by (simp only: e) simp
  next
    case False
    then obtain a where a: "storeLookup db i = Inr a" using Cons.prems(2) by auto
    obtain c1 where g: "fst (GetAtx db i) = Inr a" "snd (GetAtx db i) = db\<lparr>atxCache := c1\<rparr>"
      and co: "cacheCoherent (db\<lparr>atxCache := c1\<rparr>)"
      using GetAtx_coherent [OF Cons.prems(1), of i] a by auto
    have pre: "\<forall>j \<in> set rest - insert i seen. \<exists>a. storeLookup (db\<lparr>atxCache := c1\<rparr>) j = Inr a"
      using Cons.prems(2) by auto
    have d: "set (i # rest) - seen = insert i (set rest - insert i seen)"
      using False by auto
    have u: "seen \<union> set (i # rest) = insert i seen \<union> set rest"
      by auto
    have ni: "i \<notin> counted db p (set rest - insert i seen)" by (simp add: counted_def)
    have fin: "finite (counted db p (set rest - insert i seen))" by (simp add: finite_counted)
    show ?thesis
    proof (cases "TargetEpoch a (LayersPerEpoch db) = p")
      case True
      have "counted db p (set (i # rest) - seen) = insert i (counted db p (set rest - insert i seen))"
        unfolding d using a True by (simp add: counted_insert)
      then have cnt: "card (counted db p (set (i # rest) - seen)) =
          Suc (card (counted db p (set rest - insert i seen)))"
        using ni fin by simp
      from Cons.IH [OF co pre, of "counter + 1"] obtain c where
        c: "cacheCoherent (db\<lparr>atxCache := c\<rparr>)"
        "forAtxIds p rest (insert i seen) (counter + 1) (db\<lparr>atxCache := c1\<rparr>) =
           Return (insert i seen \<union> set rest,
                   counter + 1 + of_nat (card (counted db p (set rest - insert i seen))),
                   db\<lparr>atxCache := c\<rparr>)"
        by auto
      have step: "forAtxIds p (i # rest) seen counter db =
          forAtxIds p rest (insert i seen) (counter + 1) (db\<lparr>atxCache := c1\<rparr>)"
        using \<open>i \<notin> seen\<close> g True by simp
      have "forAtxIds p (i # rest) seen counter db =
          Return (seen \<union> set (i # rest),
                  counter + of_nat (card (counted db p (set (i # rest) - seen))),
                  db\<lparr>atxCache := c\<rparr>)"
        unfolding step c(2) u cnt by (simp add: algebra_simps)
      then show ?thesis using c(1) by blast
    next
      case False
      note nt = False
      have cnt: "counted db p (set (i # rest) - seen) = counted db p (set rest - insert i seen)"
        unfolding d using a nt by (simp add: counted_insert)
      from Cons.IH [OF co pre, of counter] obtain c where
        c: "cacheCoherent (db\<lparr>atxCache := c\<rparr>)"
        "forAtxIds p rest (insert i seen) counter (db\<lparr>atxCache := c1\<rparr>) =
           Return (insert i seen \<union> set rest,
                   counter + of_nat (card (counted db p (set rest - insert i seen))),
                   db\<lparr>atxCache := c\<rparr>)"
        by auto
      have step: "forAtxIds p (i # rest) seen counter db =
          forAtxIds p rest (insert i seen) counter (db\<lparr>atxCache := c1\<rparr>)"
        using \<open>i \<notin> seen\<close> g nt by simp
      have "forAtxIds p (i # rest) seen counter db =
          Return (seen \<union> set (i # rest),
                  counter + of_nat (card (counted db p (set (i # rest) - seen))),
                  db\<lparr>atxCache := c\<rparr>)"
        unfolding step c(2) u cnt by simp
      then show ?thesis using c(1) by blast
    qed
  qed
qed


lemma counted_Un: "counted db p (A \<union> B) = counted db p A \<union> counted db p B"
  by (auto simp: counted_def)

lemma finite_refIds: "finite (refIds lpe ce blks)"
  by (simp add: refIds_def)

lemma refIds_Cons:
  "refIds lpe ce (b # bs) =
     (if GetEpoch (LayerIndex b) lpe = ce then set (AtxIds b) \<union> refIds lpe ce bs
      else refIds lpe ce bs)"
  by (auto simp: refIds_def)

lemma forBlocks_counts:
  assumes "cacheCoherent db"
    and "\<forall>i \<in> refIds (LayersPerEpoch db) ce blks - seen. \<exists>a. storeLookup db i = Inr a"
  shows "\<exists>c. cacheCoherent (db\<lparr>atxCache := c\<rparr>) \<and>
           forBlocks p ce blks seen counter db =
             Return (seen \<union> refIds (LayersPerEpoch db) ce blks,
                     counter + of_nat (card (counted db p (refIds (LayersPerEpoch db) ce blks - seen))),
                     db\<lparr>atxCache := c\<rparr>)"
  using assms
proof (induction blks arbitrary: seen counter db)
  case Nil
  have "cacheCoherent (db\<lparr>atxCache := atxCache db\<rparr>)" using Nil.prems(1) by simp
  moreover have "forBlocks p ce [] seen counter db =
      Return (seen \<union> refIds (LayersPerEpoch db) ce [],
              counter + of_nat (card (counted db p (refIds (LayersPerEpoch db) ce [] - seen))),
              db\<lparr>atxCache := atxCache db\<rparr>)"
    by (simp add: refIds_def counted_def)
  ultimately show ?case by blast
next
  case (Cons b bs)
  let ?lpe = "LayersPerEpoch db"
  show ?case
  proof (cases "GetEpoch (LayerIndex b) ?lpe = ce")
    case False
    then have r: "refIds ?lpe ce (b # bs) = refIds ?lpe ce bs" by (simp add: refIds_Cons)
    have t: "traversalFunc p ce b seen counter db = Return (seen, counter, db)"
      using False by (simp add: traversalFunc_def)
    from Cons.IH [OF Cons.prems(1), of seen counter] Cons.prems(2) show ?thesis
      unfolding r by (simp add: t)
  next
    case True
    then have r: "refIds ?lpe ce (b # bs) = set (AtxIds b) \<union> refIds ?lpe ce bs"
      by (simp add: refIds_Cons)
    have p1: "\<forall>i \<in> set (AtxIds b) - seen. \<exists>a. storeLookup db i = Inr a"
      using Cons.prems(2) unfolding r by auto
    from forAtxIds_counts [OF Cons.prems(1) p1, of p counter] obtain c1 where
      co: "cacheCoherent (db\<lparr>atxCache := c1\<rparr>)" and
      f: "forAtxIds p (AtxIds b) seen counter db =
           Return (seen \<union> set (AtxIds b),
                   counter + of_nat (card (counted db p (set (AtxIds b) - seen))),
                   db\<lparr>atxCache := c1\<rparr>)"
      by blast
    have t: "traversalFunc p ce b seen counter db =
           Return (seen \<union> set (AtxIds b),
                   counter + of_nat (card (counted db p (set (AtxIds b) - seen))),
                   db\<lparr>atxCache := c1\<rparr>)"
      using True f by (simp add: traversalFunc_def)
    have p2: "\<forall>i \<in> refIds (LayersPerEpoch (db\<lparr>atxCache := c1\<rparr>)) ce bs - (seen \<union> set (AtxIds b)).
        \<exists>a. storeLookup (db\<lparr>atxCache := c1\<rparr>) i = Inr a"
      using Cons.prems(2) unfolding r by auto
    from Cons.IH [OF co p2, of "counter + of_nat (card (counted db p (set (AtxIds b) - seen)))"]
    obtain c where c: "cacheCoherent (db\<lparr>atxCache := c\<rparr>)" and
      g: "forBlocks p ce bs (seen \<union> set (AtxIds b))
            (counter + of_nat (card (counted db p (set (AtxIds b) - seen))))
            (db\<lparr>atxCache := c1\<rparr>) =
          Return (seen \<union> set (AtxIds b) \<union> refIds ?lpe ce bs,
                  counter + of_nat (card (counted db p (set (AtxIds b) - seen))) +
                    of_nat (card (counted db p (refIds ?lpe ce bs - (seen \<union> set (AtxIds b))))),
                  db\<lparr>atxCache := c\<rparr>)"
      by auto
    have split: "refIds ?lpe ce (b # bs) - seen =
        (set (AtxIds b) - seen) \<union> (refIds ?lpe ce bs - (seen \<union> set (AtxIds b)))"
      unfolding r by auto
    have disj: "counted db p (set (AtxIds b) - seen) \<inter>
        counted db p (refIds ?lpe ce bs - (seen \<union> set (AtxIds b))) = {}"
      by (auto simp: counted_def)
    have card: "card (counted db p (refIds ?lpe ce (b # bs) - seen)) =
        card (counted db p (set (AtxIds b) - seen)) +
        card (counted db p (refIds ?lpe ce bs - (seen \<union> set (AtxIds b))))"
      unfolding split counted_Un
      by (rule card_Un_disjoint) (simp_all add: finite_counted finite_refIds disj)
    have "forBlocks p ce (b # bs) seen counter db =
        Return (seen \<union> refIds ?lpe ce (b # bs),
                counter + of_nat (card (counted db p (refIds ?lpe ce (b # bs) - seen))),
                db\<lparr>atxCache := c\<rparr>)"
      unfolding card by (simp add: t g r Un_assoc)
    then show ?thesis using c by blast
  qed
qed

lemma CalcActiveSetFromView_miss_counts:
  assumes h: "ViewHash T (View a) = Inr h" and m: "activesetCache db h = None"
    and e: "1 \<le> GetEpoch (PubLayerIdx a) (LayersPerEpoch db)"
    and b: "meshDb db (set (View a))
              ((GetEpoch (PubLayerIdx a) (LayersPerEpoch db) - 1) * ucast (LayersPerEpoch db))
            = Inr blks"
    and co: "cacheCoherent db"
    and f: "\<forall>i \<in> refIds (LayersPerEpoch db) (GetEpoch (PubLayerIdx a) (LayersPerEpoch db) - 1) blks.
              \<exists>x. storeLookup db i = Inr x"
  shows "\<exists>db'. CalcActiveSetFromView T db a =
           Return ((of_nat (card (counted db (GetEpoch (PubLayerIdx a) (LayersPerEpoch db))
                      (refIds (LayersPerEpoch db)
                         (GetEpoch (PubLayerIdx a) (LayersPerEpoch db) - 1) blks))), None), db')"
proof -
  let ?pe = "GetEpoch (PubLayerIdx a) (LayersPerEpoch db)"
  have f': "\<forall>i \<in> refIds (LayersPerEpoch db) (?pe - 1) blks - {}. \<exists>x. storeLookup db i = Inr x"
    using f by simp
  from forBlocks_counts [OF co f', of ?pe 0] obtain c where
    g: "forBlocks ?pe (?pe - 1) blks {} 0 db =
          Return ({} \<union> refIds (LayersPerEpoch db) (?pe - 1) blks,
                  0 + of_nat (card (counted db ?pe (refIds (LayersPerEpoch db) (?pe - 1) blks - {}))),
                  db\<lparr>atxCache := c\<rparr>)"
    by blast
  have ne: "?pe \<noteq> 0"
  proof
    assume "?pe = 0"
    then have "(1 :: 64 word) \<le> 0" using e by simp
    then show False by simp
  qed
  show ?thesis
    using h m ne b g by (simp add: CalcActiveSetFromView_def Let_def)
qed

lemma CalcActiveSetFromView_miss_epoch0:
  assumes "ViewHash T (View a) = Inr h" and "activesetCache db h = None"
    and "GetEpoch (PubLayerIdx a) (LayersPerEpoch db) = 0"
  shows "CalcActiveSetFromView T db a = Return ((0, Some GenesisActiveSetUndefined), db)"
  using assms by (simp add: CalcActiveSetFromView_def)

text \<open>
  C3 on the code. \<^verbatim>\<open>CalcActiveSetFromView\<close> looks the hash of the view up in the
  active set cache before it computes the publication epoch, and returns the cached
  count without looking at the epoch. After the active set of the view of \<open>atxB\<close>
  (published in epoch 1) has been counted as 1 and cached: for \<open>atxG\<close>, of the same
  view and published in epoch 0, the call returns 1 with no error, where the call on the
  database without the cache entry fails; for \<open>atxD\<close>, of the same view and published
  in epoch 2, the call returns the cached 1, where the call without the cache entry
  counts 0.
\<close>

theorem CalcActiveSetFromView_cache_hit_skips_epoch:
  "CalcActiveSetFromView exampleTypes storedADb atxB = Return ((1, None), countedDb) \<and>
   View atxG = View atxB \<and> View atxD = View atxB \<and>
   GetEpoch (PubLayerIdx atxG) (LayersPerEpoch countedDb) = 0 \<and>
   CalcActiveSetFromView exampleTypes storedADb atxG
     = Return ((0, Some GenesisActiveSetUndefined), storedADb) \<and>
   CalcActiveSetFromView exampleTypes countedDb atxG = Return ((1, None), countedDb) \<and>
   GetEpoch (PubLayerIdx atxD) (LayersPerEpoch countedDb) = 2 \<and>
   CalcActiveSetFromView exampleTypes storedADb atxD
     = Return ((0, None), storedADb\<lparr>activesetCache := [10 \<mapsto> 0]\<rparr>) \<and>
   CalcActiveSetFromView exampleTypes countedDb atxD = Return ((1, None), countedDb)"
  by (simp add: val_defs run_defs example_defs)

end
